theory Spec2Isabelle
  imports Main "HOL-Library.Word" "HOL-Library.Sublist"
begin

section \<open>ReelDL native messaging host\<close>

text \<open>
  A shallow embedding of \<^verbatim>\<open>reeldl_native_host.py\<close>: the length-prefixed framing of
  JSON messages over standard input and output, the dispatcher that answers one decoded
  message with one response, and the loop that joins them.

  Conventions of the embedding.
  \<^item> A Python value that can come out of \<^verbatim>\<open>json.loads\<close> is a \<open>json\<close>; Python's
    \<^verbatim>\<open>None\<close> is \<open>JNull\<close>, so the "no message" result of the reader and a decoded
    JSON \<^verbatim>\<open>null\<close> are the same value, as they are in Python. Floating-point numbers
    are left out of the value type.
  \<^item> A \<^verbatim>\<open>str\<close> is a \<open>string\<close>; a \<open>char\<close> stands for the code point of the same
    number, so only code points below 256 occur. A \<^verbatim>\<open>dict\<close> is an association list
    in insertion order, looked up with \<open>map_of\<close>.
  \<^item> \<^verbatim>\<open>bytes\<close> are lists of 8-bit words; standard input is the finite list of the
    bytes still to come, and \<^verbatim>\<open>read(n)\<close> takes up to \<open>n\<close> of them.
  \<^item> An exception that the source lets escape is the \<open>Inl\<close> of a sum.
  \<^item> The functions of the Python library and of the operating system that the source
    calls (\<^verbatim>\<open>json.dumps\<close>, \<^verbatim>\<open>json.loads\<close>, the UTF-8 codec, \<^verbatim>\<open>os.name\<close>,
    \<^verbatim>\<open>os.path.join\<close>, \<^verbatim>\<open>os.path.exists\<close>, \<^verbatim>\<open>subprocess.run\<close>) are the fields
    of a \<open>runtime\<close> record that every operation takes as its first argument.
    \<^verbatim>\<open>subprocess.run\<close> either returns the completed process or raises, as the
    JSON functions and the decoder do. Faults of the transport itself (a broken pipe on
    standard output) are not part of the model.
\<close>

subsection \<open>Values, exceptions and the runtime\<close>

type_synonym byte = "8 word"

datatype json =
    JNull
  | JBool bool
  | JInt int
  | JStr string
  | JArr "json list"
  | JObj "(string \<times> json) list"

datatype exn =
    AttributeError
  | OverflowError
  | UnicodeDecodeError
  | JSONDecodeError
  | TypeError
  | ValueError
  | OSError

text \<open>The keyword arguments of one \<^verbatim>\<open>subprocess.run\<close> call, and what it returns
  when it does not raise.\<close>

record run_call =
  args :: "string list"
  cwd :: string
  capture_output :: bool
  text_mode :: bool

record completed_process =
  returncode :: int
  stdout :: string
  stderr :: string

record runtime =
  json_dumps :: "json \<Rightarrow> exn + string"
  json_loads :: "string \<Rightarrow> exn + json"
  utf8_encode :: "string \<Rightarrow> byte list"
  utf8_decode :: "byte list \<Rightarrow> exn + string"
  os_name :: string
  os_path_join :: "string \<Rightarrow> string \<Rightarrow> string"
  os_path_exists :: "string \<Rightarrow> bool"
  subprocess_run :: "run_call \<Rightarrow> exn + completed_process"

subsection \<open>Python primitives used by the host\<close>

text \<open>\<^verbatim>\<open>int.from_bytes(bs, byteorder="little")\<close>\<close>

fun from_bytes_little :: "byte list \<Rightarrow> nat" where
  "from_bytes_little [] = 0"
| "from_bytes_little (b # bs) = unat b + 256 * from_bytes_little bs"

text \<open>\<^verbatim>\<open>n.to_bytes(k, byteorder="little")\<close> for \<open>n \<ge> 0\<close>: raises when \<open>n\<close> needs more
  than \<open>k\<close> bytes.\<close>

fun little_endian :: "nat \<Rightarrow> nat \<Rightarrow> byte list" where
  "little_endian 0 n = []"
| "little_endian (Suc k) n = of_nat (n mod 256) # little_endian k (n div 256)"

definition to_bytes_little :: "nat \<Rightarrow> nat \<Rightarrow> exn + byte list" where
  "to_bytes_little k n = (if n < 256 ^ k then Inr (little_endian k n) else Inl OverflowError)"

text \<open>\<^verbatim>\<open>x.get(key)\<close>: a dictionary answers with the value or \<^verbatim>\<open>None\<close>; no other JSON
  value has the attribute.\<close>

fun py_get :: "json \<Rightarrow> string \<Rightarrow> exn + json" where
  "py_get (JObj kvs) key = Inr (case map_of kvs key of None \<Rightarrow> JNull | Some v \<Rightarrow> v)"
| "py_get _ key = Inl AttributeError"

text \<open>\<^verbatim>\<open>str.isspace\<close> on one character, for the code points below 256, and
  \<^verbatim>\<open>str.strip()\<close>.\<close>

definition isspace :: "char \<Rightarrow> bool" where
  "isspace c = (let n = (of_char c :: nat) in
     (9 \<le> n \<and> n \<le> 13) \<or> (28 \<le> n \<and> n \<le> 32) \<or> n = 133 \<or> n = 160)"

definition strip :: "string \<Rightarrow> string" where
  "strip s = rev (dropWhile isspace (rev (dropWhile isspace s)))"

text \<open>\<^verbatim>\<open>a or b\<close> on two strings: the empty string is false.\<close>

definition py_or :: "string \<Rightarrow> string \<Rightarrow> string" where
  "py_or a b = (if a \<noteq> [] then a else b)"

subsection \<open>Framing channel\<close>

text \<open>\<open>read_native_message\<close> returns its result and the bytes left on standard input.\<close>

definition read_native_message :: "runtime \<Rightarrow> byte list \<Rightarrow> (exn + json) \<times> byte list" where
  "read_native_message rt inp =
     (let raw_length = take 4 inp; inp1 = drop 4 inp in
      if length raw_length < 4 then (Inr JNull, inp1)
      else
        let message_length = from_bytes_little raw_length in
        if message_length = 0 then (Inr JNull, inp1)
        else
          let message_bytes = take message_length inp1; inp2 = drop message_length inp1 in
          if length message_bytes < message_length then (Inr JNull, inp2)
          else
            (case utf8_decode rt message_bytes of
               Inl e \<Rightarrow> (Inl e, inp2)
             | Inr s \<Rightarrow> (json_loads rt s, inp2)))"

text \<open>\<open>send_native_message\<close> takes the bytes written to standard output so far and
  returns them with the frame appended. The length prefix is computed before the first
  write, so a payload that does not fit the prefix raises with nothing written.\<close>

definition send_native_message :: "runtime \<Rightarrow> json \<Rightarrow> byte list \<Rightarrow> exn + byte list" where
  "send_native_message rt payload out =
     (case json_dumps rt payload of
        Inl e \<Rightarrow> Inl e
      | Inr s \<Rightarrow>
          let encoded_payload = utf8_encode rt s in
          (case to_bytes_little 4 (length encoded_payload) of
             Inl e \<Rightarrow> Inl e
           | Inr length_prefix \<Rightarrow> Inr (out @ length_prefix @ encoded_payload)))"

subsection \<open>Request dispatcher\<close>

definition resolve_yt_dlp_path :: "runtime \<Rightarrow> string \<Rightarrow> string" where
  "resolve_yt_dlp_path rt script_directory =
     (let executable_name = (if os_name rt = ''nt'' then ''yt-dlp.exe'' else ''yt-dlp'')
      in os_path_join rt script_directory executable_name)"

definition build_yt_dlp_command :: "string \<Rightarrow> string \<Rightarrow> string list" where
  "build_yt_dlp_command yt_dlp_path page_url =
     [yt_dlp_path, ''--cookies-from-browser'', ''chrome'', page_url]"

text \<open>A response dictionary \<^verbatim>\<open>{"status": s, "message": t}\<close>.\<close>

definition response :: "string \<Rightarrow> string \<Rightarrow> json" where
  "response s t = JObj [(''status'', JStr s), (''message'', JStr t)]"

text \<open>\<open>handle_download_request\<close> returns what the source function returns or raises,
  together with the \<^verbatim>\<open>subprocess.run\<close> calls it made, in order. An exception of
  \<^verbatim>\<open>subprocess.run\<close> is not caught, so it escapes the handler.\<close>

definition handle_download_request ::
  "runtime \<Rightarrow> json \<Rightarrow> string \<Rightarrow> (exn + json) \<times> run_call list" where
  "handle_download_request rt message script_directory =
     (case py_get message ''pageUrl'' of
        Inl e \<Rightarrow> (Inl e, [])
      | Inr page_url \<Rightarrow>
          (case page_url of
             JStr url \<Rightarrow>
               if strip url = [] then (Inr (response ''error'' ''Missing page URL for yt-dlp.''), [])
               else
                 let yt_dlp_path = resolve_yt_dlp_path rt script_directory in
                 if \<not> os_path_exists rt yt_dlp_path
                 then (Inr (response ''error'' (''yt-dlp was not found at '' @ yt_dlp_path @ ''.'')), [])
                 else
                   let yt_dlp_command = build_yt_dlp_command yt_dlp_path url;
                       call = \<lparr>args = yt_dlp_command, cwd = script_directory,
                               capture_output = True, text_mode = True\<rparr>
                   in
                     (case subprocess_run rt call of
                        Inl e \<Rightarrow> (Inl e, [call])
                      | Inr completed \<Rightarrow>
                          if returncode completed \<noteq> 0 then
                            let error_output =
                                  py_or (strip (stderr completed)) (strip (stdout completed))
                            in (Inr (response ''error''
                                       (py_or error_output ''yt-dlp failed with an unknown error.'')),
                                [call])
                          else (Inr (response ''ok'' ''yt-dlp finished downloading the reel.''),
                                [call]))
           | _ \<Rightarrow> (Inr (response ''error'' ''Missing page URL for yt-dlp.''), [])))"

text \<open>The body of the host loop between reading and sending: probe the action and
  route.\<close>

definition dispatch_message ::
  "runtime \<Rightarrow> json \<Rightarrow> string \<Rightarrow> (exn + json) \<times> run_call list" where
  "dispatch_message rt incoming_message script_directory =
     (case py_get incoming_message ''action'' of
        Inl e \<Rightarrow> (Inl e, [])
      | Inr action \<Rightarrow>
          if action = JStr ''download''
          then handle_download_request rt incoming_message script_directory
          else (Inr (response ''error'' ''Unknown action received.''), []))"

subsection \<open>Host loop\<close>

text \<open>The state of the loop: the bytes still to be read, the bytes written, and the
  \<^verbatim>\<open>subprocess.run\<close> calls made so far.\<close>

record host_state =
  stdin_buf :: "byte list"
  stdout_buf :: "byte list"
  spawned :: "run_call list"

text \<open>The loop returns \<open>None\<close> when it leaves through \<^verbatim>\<open>break\<close> and \<open>Some e\<close> when the
  exception \<open>e\<close> escapes, with the state reached.\<close>

function run_native_host :: "runtime \<Rightarrow> string \<Rightarrow> host_state \<Rightarrow> exn option \<times> host_state" where
  "run_native_host rt script_directory st =
     (case read_native_message rt (stdin_buf st) of
        (Inl e, rest) \<Rightarrow> (Some e, st\<lparr>stdin_buf := rest\<rparr>)
      | (Inr incoming_message, rest) \<Rightarrow>
          if incoming_message = JNull then (None, st\<lparr>stdin_buf := rest\<rparr>)
          else
            (case dispatch_message rt incoming_message script_directory of
               (Inl e, calls) \<Rightarrow>
                 (Some e, st\<lparr>stdin_buf := rest, spawned := spawned st @ calls\<rparr>)
             | (Inr resp, calls) \<Rightarrow>
                 (case send_native_message rt resp (stdout_buf st) of
                    Inl e \<Rightarrow> (Some e, st\<lparr>stdin_buf := rest, spawned := spawned st @ calls\<rparr>)
                  | Inr out \<Rightarrow>
                      run_native_host rt script_directory
                        \<lparr>stdin_buf = rest, stdout_buf = out, spawned = spawned st @ calls\<rparr>)))"
  by pat_completeness auto
termination
  apply (relation "measure (\<lambda>(rt, script_directory, st). length (stdin_buf st))")
   apply simp
  apply (auto simp: read_native_message_def Let_def split: if_splits sum.splits)
  done

declare run_native_host.simps [simp del]

subsection \<open>A reference runtime\<close>

text \<open>
  A concrete runtime on which the host can be evaluated. Its JSON functions follow
  \<^verbatim>\<open>json.dumps\<close> (default separators, \<^verbatim>\<open>ensure_ascii\<close>) and \<^verbatim>\<open>json.loads\<close> on
  the values of type \<open>json\<close>; numbers with a fraction or an exponent, the constants
  \<^verbatim>\<open>NaN\<close> and \<^verbatim>\<open>Infinity\<close>, and code points from 256 on lie outside the value
  type and are rejected. Paths are joined as \<^verbatim>\<open>posixpath.join\<close> does. The file
  system and the behaviour of child processes are parameters.
\<close>

fun intercalate :: "string \<Rightarrow> string list \<Rightarrow> string" where
  "intercalate sep [] = []"
| "intercalate sep [x] = x"
| "intercalate sep (x # y # ys) = x @ sep @ intercalate sep (y # ys)"

definition hex_digit :: "nat \<Rightarrow> char" where
  "hex_digit n = (let d = n mod 16 in
     if d < 10 then char_of (48 + d) else char_of (87 + d))"

fun decimal :: "nat \<Rightarrow> string" where
  "decimal n = (if n < 10 then [char_of (48 + n)] else decimal (n div 10) @ [char_of (48 + n mod 10)])"

definition str_int :: "int \<Rightarrow> string" where
  "str_int i = (if i < 0 then CHR ''-'' # decimal (nat (- i)) else decimal (nat i))"

definition escape_char :: "char \<Rightarrow> string" where
  "escape_char c =
     (let n = (of_char c :: nat) in
      if c = CHR ''\"'' then [CHR 0x5C, CHR ''\"'']
      else if c = CHR 0x5C then [CHR 0x5C, CHR 0x5C]
      else if c = CHR 0x0A then [CHR 0x5C, CHR ''n'']
      else if c = CHR 0x0D then [CHR 0x5C, CHR ''r'']
      else if c = CHR 0x09 then [CHR 0x5C, CHR ''t'']
      else if c = CHR 0x08 then [CHR 0x5C, CHR ''b'']
      else if c = CHR 0x0C then [CHR 0x5C, CHR ''f'']
      else if 32 \<le> n \<and> n \<le> 126 then [c]
      else [CHR 0x5C, CHR ''u'', CHR ''0'', CHR ''0'', hex_digit (n div 16), hex_digit n])"

definition encode_basestring :: "string \<Rightarrow> string" where
  "encode_basestring s = CHR ''\"'' # concat (map escape_char s) @ [CHR ''\"'']"

primrec dumps_value :: "json \<Rightarrow> string" where
  "dumps_value JNull = ''null''"
| "dumps_value (JBool b) = (if b then ''true'' else ''false'')"
| "dumps_value (JInt i) = str_int i"
| "dumps_value (JStr s) = encode_basestring s"
| "dumps_value (JArr xs) = ''['' @ intercalate '', '' (map dumps_value xs) @ '']''"
| "dumps_value (JObj kvs) =
     ''{'' @ intercalate '', ''
        (map (\<lambda>kv. encode_basestring (fst kv) @ '': '' @ snd kv) (map (map_prod id dumps_value) kvs))
      @ ''}''"

definition reference_dumps :: "json \<Rightarrow> exn + string" where
  "reference_dumps v = Inr (dumps_value v)"

text \<open>Parsing. \<open>skip_ws\<close> drops JSON whitespace; \<open>parse_string_body\<close> reads a string
  after its opening quote; \<open>parse_digits\<close> reads a run of decimal digits.\<close>

definition is_ws :: "char \<Rightarrow> bool" where
  "is_ws c = (c = CHR '' '' \<or> c = CHR 0x09 \<or> c = CHR 0x0A \<or> c = CHR 0x0D)"

definition skip_ws :: "string \<Rightarrow> string" where
  "skip_ws s = dropWhile is_ws s"

definition is_digit :: "char \<Rightarrow> bool" where
  "is_digit c = (let n = (of_char c :: nat) in 48 \<le> n \<and> n \<le> 57)"

definition hex_value :: "char \<Rightarrow> nat option" where
  "hex_value c =
     (let n = (of_char c :: nat) in
      if 48 \<le> n \<and> n \<le> 57 then Some (n - 48)
      else if 97 \<le> n \<and> n \<le> 102 then Some (n - 87)
      else if 65 \<le> n \<and> n \<le> 70 then Some (n - 55)
      else None)"

definition unescape :: "char \<Rightarrow> char option" where
  "unescape e =
     (if e = CHR ''\"'' then Some (CHR ''\"'')
      else if e = CHR 0x5C then Some (CHR 0x5C)
      else if e = CHR ''/'' then Some (CHR ''/'')
      else if e = CHR ''b'' then Some (CHR 0x08)
      else if e = CHR ''f'' then Some (CHR 0x0C)
      else if e = CHR ''n'' then Some (CHR 0x0A)
      else if e = CHR ''r'' then Some (CHR 0x0D)
      else if e = CHR ''t'' then Some (CHR 0x09)
      else None)"

fun parse_string_body :: "string \<Rightarrow> (string \<times> string) option" where
  "parse_string_body [] = None"
| "parse_string_body (c # r) =
     (if c = CHR ''\"'' then Some ([], r)
      else if c = CHR 0x5C then
        (case r of
           [] \<Rightarrow> None
         | e # r1 \<Rightarrow>
             if e = CHR ''u'' then
               (case r1 of
                  h1 # h2 # h3 # h4 # r2 \<Rightarrow>
                    (case (hex_value h1, hex_value h2, hex_value h3, hex_value h4) of
                       (Some a, Some b, Some c1, Some d) \<Rightarrow>
                         if a = 0 \<and> b = 0 then
                           (case parse_string_body r2 of
                              None \<Rightarrow> None
                            | Some (s, rest) \<Rightarrow> Some (char_of (16 * c1 + d) # s, rest))
                         else None
                     | _ \<Rightarrow> None)
                | _ \<Rightarrow> None)
             else
               (case unescape e of
                  None \<Rightarrow> None
                | Some u \<Rightarrow>
                    (case parse_string_body r1 of
                       None \<Rightarrow> None
                     | Some (s, rest) \<Rightarrow> Some (u # s, rest))))
      else if (of_char c :: nat) < 32 then None
      else
        (case parse_string_body r of
           None \<Rightarrow> None
         | Some (s, rest) \<Rightarrow> Some (c # s, rest)))"

fun digits_value :: "nat \<Rightarrow> string \<Rightarrow> nat" where
  "digits_value acc [] = acc"
| "digits_value acc (c # cs) = digits_value (10 * acc + (of_char c - 48)) cs"

text \<open>\<open>parse_number\<close> follows the scanner's pattern \<^verbatim>\<open>-?(0|[1-9][0-9]*)\<close> and rejects
  a following fraction or exponent.\<close>

definition parse_natural :: "string \<Rightarrow> (nat \<times> string) option" where
  "parse_natural s =
     (case s of
        [] \<Rightarrow> None
      | c # r \<Rightarrow>
          if c = CHR ''0'' then Some (0, r)
          else if is_digit c then
            Some (digits_value 0 (takeWhile is_digit s), dropWhile is_digit s)
          else None)"

definition parse_number :: "string \<Rightarrow> (json \<times> string) option" where
  "parse_number s =
     (let negative = (s \<noteq> [] \<and> hd s = CHR ''-'');
          body = (if negative then tl s else s)
      in case parse_natural body of
           None \<Rightarrow> None
         | Some (n, rest) \<Rightarrow>
             if rest \<noteq> [] \<and> (hd rest = CHR ''.'' \<or> hd rest = CHR ''e'' \<or> hd rest = CHR ''E'')
             then None
             else Some (JInt (if negative then - int n else int n), rest))"

text \<open>\<^verbatim>\<open>d[key] = value\<close> on an insertion-ordered dictionary.\<close>

fun dict_setitem :: "(string \<times> json) list \<Rightarrow> string \<Rightarrow> json \<Rightarrow> (string \<times> json) list" where
  "dict_setitem [] k v = [(k, v)]"
| "dict_setitem (p # ps) k v = (if fst p = k then (k, v) # ps else p # dict_setitem ps k v)"

text \<open>The recursive descent proper. The first argument bounds the number of nested
  calls; \<open>reference_loads\<close> starts it above the length of the text.\<close>

fun parse_value :: "nat \<Rightarrow> string \<Rightarrow> (json \<times> string) option"
  and parse_elements :: "nat \<Rightarrow> json list \<Rightarrow> string \<Rightarrow> (json \<times> string) option"
  and parse_members :: "nat \<Rightarrow> (string \<times> json) list \<Rightarrow> string \<Rightarrow> (json \<times> string) option"
where
  "parse_value 0 s = None"
| "parse_value (Suc n) s =
     (if take 4 s = ''null'' then Some (JNull, drop 4 s)
      else if take 4 s = ''true'' then Some (JBool True, drop 4 s)
      else if take 5 s = ''false'' then Some (JBool False, drop 5 s)
      else
        (case s of
           [] \<Rightarrow> None
         | c # r \<Rightarrow>
             if c = CHR ''\"'' then
               (case parse_string_body r of
                  None \<Rightarrow> None
                | Some (str, rest) \<Rightarrow> Some (JStr str, rest))
             else if c = CHR ''['' then
               (let r1 = skip_ws r in
                if r1 \<noteq> [] \<and> hd r1 = CHR '']'' then Some (JArr [], tl r1)
                else parse_elements n [] r1)
             else if c = CHR ''{'' then
               (let r1 = skip_ws r in
                if r1 \<noteq> [] \<and> hd r1 = CHR ''}'' then Some (JObj [], tl r1)
                else parse_members n [] r1)
             else parse_number s))"
| "parse_elements 0 acc s = None"
| "parse_elements (Suc n) acc s =
     (case parse_value n s of
        None \<Rightarrow> None
      | Some (v, rest) \<Rightarrow>
          (let r1 = skip_ws rest in
           case r1 of
             [] \<Rightarrow> None
           | c # r2 \<Rightarrow>
               if c = CHR '']'' then Some (JArr (acc @ [v]), r2)
               else if c = CHR '','' then parse_elements n (acc @ [v]) (skip_ws r2)
               else None))"
| "parse_members 0 acc s = None"
| "parse_members (Suc n) acc s =
     (case s of
        [] \<Rightarrow> None
      | q # r \<Rightarrow>
          if q \<noteq> CHR ''\"'' then None
          else
            (case parse_string_body r of
               None \<Rightarrow> None
             | Some (key, rest) \<Rightarrow>
                 (case skip_ws rest of
                    [] \<Rightarrow> None
                  | colon # r1 \<Rightarrow>
                      if colon \<noteq> CHR '':'' then None
                      else
                        (case parse_value n (skip_ws r1) of
                           None \<Rightarrow> None
                         | Some (v, rest1) \<Rightarrow>
                             (case skip_ws rest1 of
                                [] \<Rightarrow> None
                              | c # r2 \<Rightarrow>
                                  if c = CHR ''}'' then Some (JObj (dict_setitem acc key v), r2)
                                  else if c = CHR '','' then
                                    parse_members n (dict_setitem acc key v) (skip_ws r2)
                                  else None)))))"

definition reference_loads :: "string \<Rightarrow> exn + json" where
  "reference_loads s =
     (case parse_value (Suc (length s)) (skip_ws s) of
        None \<Rightarrow> Inl JSONDecodeError
      | Some (v, rest) \<Rightarrow> if skip_ws rest = [] then Inr v else Inl JSONDecodeError)"

text \<open>UTF-8 for code points below 256: one byte below 128, two bytes from there on.\<close>

definition utf8_char :: "char \<Rightarrow> byte list" where
  "utf8_char c =
     (let n = (of_char c :: nat) in
      if n < 128 then [of_nat n] else [of_nat (192 + n div 64), of_nat (128 + n mod 64)])"

definition reference_encode :: "string \<Rightarrow> byte list" where
  "reference_encode s = concat (map utf8_char s)"

fun reference_decode :: "byte list \<Rightarrow> exn + string" where
  "reference_decode [] = Inr []"
| "reference_decode (b # bs) =
     (if unat b < 128 then
        (case reference_decode bs of Inl e \<Rightarrow> Inl e | Inr s \<Rightarrow> Inr (char_of (unat b) # s))
      else if unat b = 194 \<or> unat b = 195 then
        (case bs of
           [] \<Rightarrow> Inl UnicodeDecodeError
         | b2 # bs2 \<Rightarrow>
             if 128 \<le> unat b2 \<and> unat b2 < 192 then
               (case reference_decode bs2 of
                  Inl e \<Rightarrow> Inl e
                | Inr s \<Rightarrow> Inr (char_of ((unat b - 192) * 64 + (unat b2 - 128)) # s))
             else Inl UnicodeDecodeError)
      else Inl UnicodeDecodeError)"

text \<open>\<^verbatim>\<open>posixpath.join(a, b)\<close>\<close>

definition posix_join :: "string \<Rightarrow> string \<Rightarrow> string" where
  "posix_join a b =
     (if b \<noteq> [] \<and> hd b = CHR ''/'' then b
      else if a = [] \<or> last a = CHR ''/'' then a @ b
      else a @ ''/'' @ b)"

text \<open>\<^verbatim>\<open>subprocess.run\<close> raises \<^verbatim>\<open>ValueError\<close> ("embedded null byte") when an argument
  or the working directory holds a NUL character, before any child is started;
  otherwise the child, given as the parameter \<open>child\<close>, runs to completion.\<close>

definition reference_run ::
  "(run_call \<Rightarrow> completed_process) \<Rightarrow> run_call \<Rightarrow> exn + completed_process" where
  "reference_run child call =
     (if CHR 0x00 \<in> set (concat (cwd call # args call)) then Inl ValueError
      else Inr (child call))"

definition reference_runtime ::
  "(string \<Rightarrow> bool) \<Rightarrow> (run_call \<Rightarrow> completed_process) \<Rightarrow> runtime" where
  "reference_runtime file_exists child =
     \<lparr>json_dumps = reference_dumps, json_loads = reference_loads,
      utf8_encode = reference_encode, utf8_decode = reference_decode,
      os_name = ''posix'', os_path_join = posix_join,
      os_path_exists = file_exists, subprocess_run = reference_run child\<rparr>"

subsection \<open>Vocabulary of the properties\<close>

text \<open>\<^verbatim>\<open>isinstance(v, dict)\<close>\<close>

fun is_dict :: "json \<Rightarrow> bool" where
  "is_dict (JObj kvs) = True"
| "is_dict v = False"

text \<open>A blank string: empty, or whitespace only.\<close>

definition blank :: "string \<Rightarrow> bool" where
  "blank s = list_all isspace s"

text \<open>The \<^verbatim>\<open>pageUrl\<close> field of a message is unusable when it is absent, not a string,
  or a blank string.\<close>

definition page_url_unusable :: "(string \<times> json) list \<Rightarrow> bool" where
  "page_url_unusable kvs =
     (case map_of kvs ''pageUrl'' of
        None \<Rightarrow> True
      | Some (JStr s) \<Rightarrow> blank s
      | Some v \<Rightarrow> True)"

text \<open>A valid download request for \<open>url\<close>.\<close>

definition valid_download :: "(string \<times> json) list \<Rightarrow> string \<Rightarrow> bool" where
  "valid_download kvs url =
     (map_of kvs ''action'' = Some (JStr ''download'') \<and>
      map_of kvs ''pageUrl'' = Some (JStr url) \<and> \<not> blank url)"

text \<open>The call of the downloader for \<open>url\<close> from the host's directory.\<close>

definition yt_dlp_call :: "runtime \<Rightarrow> string \<Rightarrow> string \<Rightarrow> run_call" where
  "yt_dlp_call rt script_directory url =
     \<lparr>args = build_yt_dlp_command (resolve_yt_dlp_path rt script_directory) url,
      cwd = script_directory, capture_output = True, text_mode = True\<rparr>"

text \<open>File systems and child processes for the reference runtime.\<close>

definition no_files :: "string \<Rightarrow> bool" where
  "no_files path = False"

definition installed :: "string \<Rightarrow> bool" where
  "installed path = (path = ''/opt/reeldl/yt-dlp'')"

definition child_exits :: "int \<Rightarrow> string \<Rightarrow> string \<Rightarrow> run_call \<Rightarrow> completed_process" where
  "child_exits code out err call = \<lparr>returncode = code, stdout = out, stderr = err\<rparr>"

text \<open>The two library compositions of the framing channel:
  \<^verbatim>\<open>json.dumps(payload).encode("utf-8")\<close> and \<^verbatim>\<open>json.loads(message_bytes.decode("utf-8"))\<close>.\<close>

definition encoded_payload :: "runtime \<Rightarrow> json \<Rightarrow> exn + byte list" where
  "encoded_payload rt m =
     (case json_dumps rt m of Inl e \<Rightarrow> Inl e | Inr s \<Rightarrow> Inr (utf8_encode rt s))"

definition decoded_payload :: "runtime \<Rightarrow> byte list \<Rightarrow> exn + json" where
  "decoded_payload rt bs =
     (case utf8_decode rt bs of Inl e \<Rightarrow> Inl e | Inr s \<Rightarrow> json_loads rt s)"

text \<open>A message is JSON-serializable when the library serializes it to a non-empty
  payload that it reads back as the same message, as Python's \<^verbatim>\<open>json\<close> module does for
  the values of type \<open>json\<close> that it serializes; \<open>payload_length\<close> is the size of that
  payload.\<close>

definition json_serializable :: "runtime \<Rightarrow> json \<Rightarrow> bool" where
  "json_serializable rt m =
     (case encoded_payload rt m of
        Inl e \<Rightarrow> False
      | Inr p \<Rightarrow> p \<noteq> [] \<and> decoded_payload rt p = Inr m)"

definition payload_length :: "runtime \<Rightarrow> json \<Rightarrow> nat" where
  "payload_length rt m = (case encoded_payload rt m of Inl e \<Rightarrow> 0 | Inr p \<Rightarrow> length p)"

text \<open>One frame on the wire: the length of the payload in four little-endian bytes,
  then the payload.\<close>

definition frame :: "byte list \<Rightarrow> byte list" where
  "frame p = little_endian 4 (length p) @ p"

text \<open>Several messages written one after the other, and several reads in a row.\<close>

fun send_messages :: "runtime \<Rightarrow> json list \<Rightarrow> byte list \<Rightarrow> exn + byte list" where
  "send_messages rt [] out = Inr out"
| "send_messages rt (m # ms) out =
     (case send_native_message rt m out of
        Inl e \<Rightarrow> Inl e
      | Inr out' \<Rightarrow> send_messages rt ms out')"

fun read_messages :: "runtime \<Rightarrow> nat \<Rightarrow> byte list \<Rightarrow> (exn + json) list \<times> byte list" where
  "read_messages rt 0 inp = ([], inp)"
| "read_messages rt (Suc n) inp =
     (case read_native_message rt inp of
        (r, rest) \<Rightarrow> (case read_messages rt n rest of (rs, rest') \<Rightarrow> (r # rs, rest')))"

section \<open>Properties of the framing channel\<close>

lemma length_little_endian: "length (little_endian k n) = k"
  by (induction k arbitrary: n) simp_all

lemma from_bytes_little_endian: "n < 256 ^ k \<Longrightarrow> from_bytes_little (little_endian k n) = n"
proof (induction k arbitrary: n)
  case 0
  then show ?case by simp
next
  case (Suc k)
  then have "n div 256 < 256 ^ k"
    by (simp add: less_mult_imp_div_less mult.commute)
  with Suc.IH have "from_bytes_little (little_endian k (n div 256)) = n div 256"
    by simp
  moreover have "unat (of_nat (n mod 256) :: byte) = n mod 256"
    by (simp add: unat_of_nat)
  ultimately show ?case by simp
qed

lemma send_frame:
  assumes "encoded_payload rt m = Inr p"
  shows "send_native_message rt m out =
     (if length p < 2 ^ 32 then Inr (out @ frame p) else Inl OverflowError)"
  using assms
  by (auto simp: send_native_message_def encoded_payload_def to_bytes_little_def frame_def
      Let_def split: sum.splits)

lemma read_frame:
  assumes "p \<noteq> []" and "length p < 2 ^ 32"
  shows "read_native_message rt (frame p @ rest) = (decoded_payload rt p, rest)"
proof -
  let ?pre = "little_endian 4 (length p)"
  have l: "length ?pre = 4"
    by (rule length_little_endian)
  have f: "from_bytes_little ?pre = length p"
    using assms(2) by (simp add: from_bytes_little_endian)
  have t: "take 4 (frame p @ rest) = ?pre" and d: "drop 4 (frame p @ rest) = p @ rest"
    using l by (simp_all add: frame_def)
  show ?thesis
    unfolding read_native_message_def t d Let_def l f
    using assms(1) by (simp add: decoded_payload_def split: sum.splits)
qed

lemma read_no_message_iff:
  "fst (read_native_message rt inp) = Inr JNull \<longleftrightarrow>
     length inp < 4
     \<or> from_bytes_little (take 4 inp) = 0
     \<or> length inp - 4 < from_bytes_little (take 4 inp)
     \<or> decoded_payload rt (take (from_bytes_little (take 4 inp)) (drop 4 inp)) = Inr JNull"
  by (auto simp: read_native_message_def decoded_payload_def Let_def split: sum.splits)

lemma read_short_prefix: "length inp < 4 \<Longrightarrow> read_native_message rt inp = (Inr JNull, [])"
  by (simp add: read_native_message_def)

lemma read_zero_length:
  "4 \<le> length inp \<Longrightarrow> from_bytes_little (take 4 inp) = 0 \<Longrightarrow>
   read_native_message rt inp = (Inr JNull, drop 4 inp)"
  by (simp add: read_native_message_def)

lemma read_truncated_payload:
  "4 \<le> length inp \<Longrightarrow> length inp - 4 < from_bytes_little (take 4 inp) \<Longrightarrow>
   read_native_message rt inp = (Inr JNull, [])"
  by (auto simp: read_native_message_def Let_def)

lemma read_exhausted: "read_native_message rt [] = (Inr JNull, [])"
  by (simp add: read_short_prefix)

lemma read_zero_frame: "read_native_message rt [0, 0, 0, 0] = (Inr JNull, [])"
  by (simp add: read_native_message_def)

lemma round_trip_one:
  assumes "json_serializable rt m" and "payload_length rt m < 2 ^ 32"
  shows "\<exists>p. p \<noteq> [] \<and> (\<forall>out. send_native_message rt m out = Inr (out @ frame p))
           \<and> (\<forall>rest. read_native_message rt (frame p @ rest) = (Inr m, rest))"
proof -
  from assms(1) obtain p where p: "encoded_payload rt m = Inr p" "p \<noteq> []"
      "decoded_payload rt p = Inr m"
    by (auto simp: json_serializable_def split: sum.splits)
  with assms(2) have len: "length p < 2 ^ 32"
    by (simp add: payload_length_def)
  have "\<forall>out. send_native_message rt m out = Inr (out @ frame p)"
    using send_frame [OF p(1)] len by simp
  moreover have "\<forall>rest. read_native_message rt (frame p @ rest) = (Inr m, rest)"
    using read_frame [OF p(2) len] p(3) by simp
  ultimately show ?thesis using p(2) by blast
qed

lemma round_trip_many:
  assumes "\<forall>m \<in> set ms. json_serializable rt m \<and> payload_length rt m < 2 ^ 32"
  shows "\<exists>bs. (\<forall>out. send_messages rt ms out = Inr (out @ bs))
            \<and> (\<forall>rest. read_messages rt (length ms) (bs @ rest) = (map Inr ms, rest))"
  using assms
proof (induction ms)
  case Nil
  then show ?case by simp
next
  case (Cons m ms)
  then obtain bs where bs: "\<forall>out. send_messages rt ms out = Inr (out @ bs)"
      "\<forall>rest. read_messages rt (length ms) (bs @ rest) = (map Inr ms, rest)"
    by auto
  from Cons.prems obtain p where p: "\<forall>out. send_native_message rt m out = Inr (out @ frame p)"
      "\<forall>rest. read_native_message rt (frame p @ rest) = (Inr m, rest)"
    using round_trip_one [of rt m] by auto
  have "\<forall>out. send_messages rt (m # ms) out = Inr (out @ (frame p @ bs))"
    using p(1) bs(1) by simp
  moreover have "\<forall>rest. read_messages rt (length (m # ms)) ((frame p @ bs) @ rest)
      = (map Inr (m # ms), rest)"
    using p(2) bs(2) by simp
  ultimately show ?case by blast
qed

lemma little_endian_4:
  "little_endian 4 n =
     [of_nat (n mod 256), of_nat (n div 256 mod 256), of_nat (n div 256 div 256 mod 256),
      of_nat (n div 256 div 256 div 256 mod 256)]"
proof -
  have "(4::nat) = Suc (Suc (Suc (Suc 0)))" by simp
  then show ?thesis by (simp only: little_endian.simps)
qed

lemma read_null_frame:
  "read_native_message (reference_runtime files run) [4, 0, 0, 0, 110, 117, 108, 108]
     = (Inr JNull, [])"
proof -
  let ?rt = "reference_runtime files run"
  have d: "decoded_payload ?rt [110, 117, 108, 108] = reference_loads ''null''"
  proof -
    have "reference_decode [110, 117, 108, 108] = Inr ''null''" by code_simp
    then show ?thesis by (simp add: decoded_payload_def reference_runtime_def)
  qed
  have l: "reference_loads ''null'' = Inr JNull" by code_simp
  have f: "frame [110, 117, 108, 108 :: byte] = [4, 0, 0, 0, 110, 117, 108, 108]"
    by (simp add: frame_def little_endian_4)
  have "read_native_message ?rt (frame [110, 117, 108, 108] @ []) = (Inr JNull, [])"
    by (subst read_frame) (simp_all add: d l)
  then show ?thesis by (simp add: f)
qed

text \<open>
  C1, as the code has it. A JSON-serializable message whose payload is shorter than
  \<open>2 ^ 32\<close> bytes, written with \<open>send_native_message\<close>, is read back unchanged by
  \<open>read_native_message\<close> from the bytes written; and messages written one after the
  other are read back in the order they were written.
\<close>

theorem framing_round_trip:
  assumes "\<forall>m \<in> set ms. json_serializable rt m \<and> payload_length rt m < 2 ^ 32"
  shows "(\<forall>m \<in> set ms. \<exists>out. send_native_message rt m [] = Inr out
                          \<and> read_native_message rt out = (Inr m, []))
       \<and> (\<exists>out. send_messages rt ms [] = Inr out
                \<and> read_messages rt (length ms) out = (map Inr ms, []))"
proof
  show "\<forall>m \<in> set ms. \<exists>out. send_native_message rt m [] = Inr out
                          \<and> read_native_message rt out = (Inr m, [])"
  proof
    fix m
    assume "m \<in> set ms"
    with assms have "json_serializable rt m" and "payload_length rt m < 2 ^ 32"
      by simp_all
    then obtain p where "\<forall>out. send_native_message rt m out = Inr (out @ frame p)"
        and "\<forall>rest. read_native_message rt (frame p @ rest) = (Inr m, rest)"
      using round_trip_one by blast
    then have "send_native_message rt m [] = Inr ([] @ frame p)"
        and "read_native_message rt (frame p @ []) = (Inr m, [])"
      by blast+
    then show "\<exists>out. send_native_message rt m [] = Inr out
                          \<and> read_native_message rt out = (Inr m, [])"
      by simp
  qed
next
  from round_trip_many [OF assms] obtain bs
    where "\<forall>out. send_messages rt ms out = Inr (out @ bs)"
      and "\<forall>rest. read_messages rt (length ms) (bs @ rest) = (map Inr ms, rest)"
    by blast
  then have "send_messages rt ms [] = Inr ([] @ bs)"
      and "read_messages rt (length ms) (bs @ []) = (map Inr ms, [])"
    by blast+
  then show "\<exists>out. send_messages rt ms [] = Inr out
                \<and> read_messages rt (length ms) out = (map Inr ms, [])"
    by simp
qed

theorem framing_round_trip_witness:
  "json_serializable (reference_runtime installed (child_exits 0 ''done'' ''''))
     (JObj [(''action'', JStr ''download''), (''pageUrl'', JStr ''https://x'')])
   \<and> payload_length (reference_runtime installed (child_exits 0 ''done'' ''''))
       (JObj [(''action'', JStr ''download''), (''pageUrl'', JStr ''https://x'')]) < 2 ^ 32
   \<and> json_serializable (reference_runtime installed (child_exits 0 ''done'' ''''))
       (JObj [(''action'', JStr ''ping'')])
   \<and> payload_length (reference_runtime installed (child_exits 0 ''done'' ''''))
       (JObj [(''action'', JStr ''ping'')]) < 2 ^ 32
   \<and> (\<exists>out. send_messages (reference_runtime installed (child_exits 0 ''done'' ''''))
               [JObj [(''action'', JStr ''download''), (''pageUrl'', JStr ''https://x'')],
                JObj [(''action'', JStr ''ping'')]] [] = Inr out
           \<and> read_messages (reference_runtime installed (child_exits 0 ''done'' '''')) 2 out
             = ([Inr (JObj [(''action'', JStr ''download''), (''pageUrl'', JStr ''https://x'')]),
                 Inr (JObj [(''action'', JStr ''ping'')])], []))"
proof -
  let ?rt = "reference_runtime installed (child_exits 0 ''done'' '''')"
  let ?m1 = "JObj [(''action'', JStr ''download''), (''pageUrl'', JStr ''https://x'')]"
  let ?m2 = "JObj [(''action'', JStr ''ping'')]"
  have s1: "json_serializable ?rt ?m1" by code_simp
  have s2: "json_serializable ?rt ?m2" by code_simp
  have "payload_length ?rt ?m1 = 46" by code_simp
  then have n1: "payload_length ?rt ?m1 < 2 ^ 32" by simp
  have "payload_length ?rt ?m2 = 18" by code_simp
  then have n2: "payload_length ?rt ?m2 < 2 ^ 32" by simp
  have h: "\<forall>m \<in> set [?m1, ?m2]. json_serializable ?rt m \<and> payload_length ?rt m < 2 ^ 32"
    using s1 s2 n1 n2 by simp
  have e: "length [?m1, ?m2] = 2"
      "map (Inr :: json \<Rightarrow> exn + json) [?m1, ?m2] = [Inr ?m1, Inr ?m2]"
    by simp_all
  have "\<exists>out. send_messages ?rt [?m1, ?m2] [] = Inr out
           \<and> read_messages ?rt 2 out = ([Inr ?m1, Inr ?m2], [])"
    using framing_round_trip [OF h] unfolding e by blast
  with s1 s2 n1 n2 show ?thesis by (intro conjI)
qed

lemma length_escape_char: "1 \<le> length (escape_char c)"
  by (simp add: escape_char_def Let_def)

lemma length_escaped: "length s \<le> length (concat (map escape_char s))"
proof (induction s)
  case Nil
  then show ?case by simp
next
  case (Cons c s)
  then show ?case using length_escape_char [of c] by simp
qed

lemma length_reference_encode: "length s \<le> length (reference_encode s)"
proof (induction s)
  case Nil
  then show ?case by (simp add: reference_encode_def)
next
  case (Cons c s)
  have "1 \<le> length (utf8_char c)"
    by (simp add: utf8_char_def Let_def)
  with Cons show ?case by (simp add: reference_encode_def)
qed

lemma oversized_string_payload:
  "length s \<le> length (reference_encode (dumps_value (JObj [(k, JStr s)])))"
proof -
  have "length s \<le> length (encode_basestring s)"
    using length_escaped [of s] by (simp add: encode_basestring_def)
  also have "\<dots> \<le> length (dumps_value (JObj [(k, JStr s)]))"
    by simp
  also have "\<dots> \<le> length (reference_encode (dumps_value (JObj [(k, JStr s)])))"
    by (rule length_reference_encode)
  finally show ?thesis .
qed

lemma oversized_string_not_sent:
  assumes "2 ^ 32 \<le> length s"
  shows "send_native_message (reference_runtime files run) (JObj [(k, JStr s)]) out
     = Inl OverflowError"
proof -
  let ?rt = "reference_runtime files run"
  have e: "encoded_payload ?rt (JObj [(k, JStr s)])
      = Inr (reference_encode (dumps_value (JObj [(k, JStr s)])))"
    by (simp add: encoded_payload_def reference_runtime_def reference_dumps_def)
  have "\<not> length (reference_encode (dumps_value (JObj [(k, JStr s)]))) < 2 ^ 32"
    using oversized_string_payload [of s k] assms by linarith
  then show ?thesis
    by (simp only: send_frame [OF e] if_False)
qed

subsection \<open>The reference runtime serializes and reads back\<close>

lemma of_char_less_256: "(of_char c :: nat) < 256"
proof -
  have "(of_char c :: nat) = of_char c mod 256" by simp
  also have "\<dots> < 256" by (rule mod_less_divisor) simp
  finally show ?thesis .
qed

lemma unat_byte: "k < 256 \<Longrightarrow> unat (of_nat k :: byte) = k"
  by (simp add: unat_of_nat)

lemma high_code_point_div: "128 \<le> n \<Longrightarrow> n < 256 \<Longrightarrow> n div 64 = 2 \<or> n div 64 = (3::nat)"
  by arith

lemma decode_two_bytes:
  assumes "unat b1 = 194 \<or> unat b1 = 195" and "128 \<le> unat b2" and "unat b2 < 192"
  shows "reference_decode (b1 # b2 # bs) =
     (case reference_decode bs of
        Inl e \<Rightarrow> Inl e
      | Inr s \<Rightarrow> Inr (char_of ((unat b1 - 192) * 64 + (unat b2 - 128)) # s))"
proof -
  from assms(1) have "\<not> unat b1 < 128" by fastforce
  with assms show ?thesis by simp
qed

lemma decode_utf8_char:
  "reference_decode (utf8_char c @ bs) =
     (case reference_decode bs of Inl e \<Rightarrow> Inl e | Inr s \<Rightarrow> Inr (c # s))"
proof (cases "(of_char c :: nat) < 128")
  case True
  then have "unat (of_nat (of_char c) :: byte) = of_char c"
    by (simp add: unat_byte)
  with True show ?thesis
    by (cases "reference_decode bs") (simp_all add: utf8_char_def Let_def)
next
  case False
  define n where "n = (of_char c :: nat)"
  define b1 :: byte where "b1 = of_nat (192 + n div 64)"
  define b2 :: byte where "b2 = of_nat (128 + n mod 64)"
  from False of_char_less_256 [of c] have r: "128 \<le> n" "n < 256"
    by (simp_all add: n_def)
  then have d: "n div 64 = 2 \<or> n div 64 = 3"
    by (rule high_code_point_div)
  have m: "n mod 64 < 64" by simp
  have "192 + n div 64 < 256" using d by fastforce
  then have u1: "unat b1 = 192 + n div 64"
    unfolding b1_def by (rule unat_byte)
  have "128 + n mod 64 < 256" using m by linarith
  then have u2: "unat b2 = 128 + n mod 64"
    unfolding b2_def by (rule unat_byte)
  have h1: "unat b1 = 194 \<or> unat b1 = 195" using d u1 by fastforce
  have h2: "128 \<le> unat b2" "unat b2 < 192" using m u2 by simp_all
  have "(unat b1 - 192) * 64 + (unat b2 - 128) = n"
    by (simp add: u1 u2)
  then have c: "char_of ((unat b1 - 192) * 64 + (unat b2 - 128)) = c"
    by (simp add: n_def)
  have "utf8_char c = [b1, b2]"
    using False by (simp add: utf8_char_def Let_def b1_def b2_def n_def)
  then show ?thesis
    by (simp only: append_Cons append_Nil decode_two_bytes [OF h1 h2] c)
qed

lemma decode_encode: "reference_decode (reference_encode s) = Inr s"
proof (induction s)
  case Nil
  then show ?case by (simp add: reference_encode_def)
next
  case (Cons c s)
  have "reference_encode (c # s) = utf8_char c @ reference_encode s"
    by (simp add: reference_encode_def)
  with Cons show ?case by (simp add: decode_utf8_char)
qed

lemma escape_plain: "concat (map escape_char (replicate n CHR ''a'')) = replicate n CHR ''a''"
  by (induction n) (simp_all add: escape_char_def)

lemma parse_plain:
  "parse_string_body (replicate n CHR ''a'' @ CHR ''\"'' # rest) = Some (replicate n CHR ''a'', rest)"
  by (induction n) simp_all


lemma dumps_page_url:
  "dumps_value (JObj [(''pageUrl'', JStr (replicate n CHR ''a''))])
     = ''{\"pageUrl\": \"'' @ replicate n CHR ''a'' @ ''\"}''"
  by (simp add: encode_basestring_def escape_plain escape_char_def)

lemma loads_page_url:
  "reference_loads (''{\"pageUrl\": \"'' @ replicate n CHR ''a'' @ ''\"}'')
     = Inr (JObj [(''pageUrl'', JStr (replicate n CHR ''a''))])"
  by (simp add: reference_loads_def skip_ws_def is_ws_def parse_plain unescape_def)

lemma page_url_serializable:
  "json_serializable (reference_runtime files run)
     (JObj [(''pageUrl'', JStr (replicate n CHR ''a''))])"
proof -
  let ?rt = "reference_runtime files run"
  let ?m = "JObj [(''pageUrl'', JStr (replicate n CHR ''a''))]"
  let ?p = "reference_encode (dumps_value ?m)"
  have e: "encoded_payload ?rt ?m = Inr ?p"
    by (simp add: encoded_payload_def reference_runtime_def reference_dumps_def)
  have "length (dumps_value ?m) \<le> length ?p"
    by (rule length_reference_encode)
  then have n: "?p \<noteq> []"
    by (auto simp: dumps_page_url)
  have "decoded_payload ?rt ?p = reference_loads (dumps_value ?m)"
    by (simp add: decoded_payload_def reference_runtime_def decode_encode)
  also have "\<dots> = Inr ?m"
    by (simp only: dumps_page_url loads_page_url)
  finally have d: "decoded_payload ?rt ?p = Inr ?m" .
  show ?thesis
    unfolding json_serializable_def e using n d by simp
qed

text \<open>
  C1 as stated fails where the payload does not fit the length prefix: the dictionary
  \<^verbatim>\<open>{"pageUrl": "a" * 2**32}\<close> is JSON-serializable, and \<open>send_native_message\<close> raises
  \<^verbatim>\<open>OverflowError\<close> for it without writing a byte.
\<close>

theorem oversized_message_counterexample:
  "json_serializable (reference_runtime no_files (child_exits 0 '''' ''''))
      (JObj [(''pageUrl'', JStr (replicate (2 ^ 32) CHR ''a''))])
   \<and> send_native_message (reference_runtime no_files (child_exits 0 '''' ''''))
        (JObj [(''pageUrl'', JStr (replicate (2 ^ 32) CHR ''a''))]) []
     = Inl OverflowError"
proof
  show "json_serializable (reference_runtime no_files (child_exits 0 '''' ''''))
      (JObj [(''pageUrl'', JStr (replicate (2 ^ 32) CHR ''a''))])"
    by (rule page_url_serializable)
next
  have "(2::nat) ^ 32 \<le> length (replicate (2 ^ 32) CHR ''a'')"
    by (simp only: length_replicate order_refl)
  then show "send_native_message (reference_runtime no_files (child_exits 0 '''' ''''))
        (JObj [(''pageUrl'', JStr (replicate (2 ^ 32) CHR ''a''))]) []
     = Inl OverflowError"
    by (rule oversized_string_not_sent)
qed

text \<open>
  C3. The frame \<^verbatim>\<open>04 00 00 00\<close> followed by the four bytes of \<^verbatim>\<open>null\<close> has a full
  prefix, a length of 4 and all 4 payload bytes, and \<open>read_native_message\<close> still
  returns \<^verbatim>\<open>None\<close> for it: the decoded payload is Python's \<^verbatim>\<open>None\<close>.
\<close>

theorem null_payload_read_as_no_message:
  "\<not> length [4, 0, 0, 0, 110, 117, 108, 108 :: byte] < 4
   \<and> from_bytes_little (take 4 [4, 0, 0, 0, 110, 117, 108, 108]) = 4
   \<and> \<not> length (drop 4 [4, 0, 0, 0, 110, 117, 108, 108 :: byte]) < 4
   \<and> read_native_message (reference_runtime no_files (child_exits 0 '''' ''''))
        [4, 0, 0, 0, 110, 117, 108, 108] = (Inr JNull, [])"
  by (simp add: read_null_frame)

section \<open>Properties of the dispatcher\<close>

lemma strip_empty_iff: "strip s = [] \<longleftrightarrow> blank s"
proof
  assume "strip s = []"
  then have all: "\<forall>c \<in> set (dropWhile isspace s). isspace c"
    by (simp add: strip_def)
  show "blank s"
  proof (cases "dropWhile isspace s")
    case Nil
    then show ?thesis by (simp add: blank_def list_all_iff)
  next
    case (Cons c cs)
    then have "\<not> isspace (hd (dropWhile isspace s))"
      using hd_dropWhile [of isspace s] by simp
    moreover have "hd (dropWhile isspace s) \<in> set (dropWhile isspace s)"
      using Cons by simp
    ultimately show ?thesis using all by blast
  qed
next
  assume "blank s"
  then have "dropWhile isspace s = []"
    by (simp add: blank_def list_all_iff)
  then have "strip s = rev (dropWhile isspace (rev []))"
    unfolding strip_def by (simp only:)
  then show "strip s = []" by simp
qed

lemma handle_valid_download:
  assumes "valid_download kvs url"
  shows "handle_download_request rt (JObj kvs) script_directory =
     (if \<not> os_path_exists rt (resolve_yt_dlp_path rt script_directory)
      then (Inr (response ''error''
                  (''yt-dlp was not found at '' @ resolve_yt_dlp_path rt script_directory @ ''.'')),
            [])
      else
        (case subprocess_run rt (yt_dlp_call rt script_directory url) of
           Inl e \<Rightarrow> (Inl e, [yt_dlp_call rt script_directory url])
         | Inr completed \<Rightarrow>
             if returncode completed \<noteq> 0
             then (Inr (response ''error''
                         (py_or (py_or (strip (stderr completed)) (strip (stdout completed)))
                            ''yt-dlp failed with an unknown error.'')),
                   [yt_dlp_call rt script_directory url])
             else (Inr (response ''ok'' ''yt-dlp finished downloading the reel.''),
                   [yt_dlp_call rt script_directory url])))"
  using assms
  by (simp add: valid_download_def handle_download_request_def strip_empty_iff
      yt_dlp_call_def Let_def split: sum.splits)

lemma dispatch_download:
  "map_of kvs ''action'' = Some (JStr ''download'') \<Longrightarrow>
   dispatch_message rt (JObj kvs) script_directory =
   handle_download_request rt (JObj kvs) script_directory"
  by (simp add: dispatch_message_def)

lemma dispatch_valid_download:
  assumes "valid_download kvs url"
  shows "dispatch_message rt (JObj kvs) script_directory =
     (if \<not> os_path_exists rt (resolve_yt_dlp_path rt script_directory)
      then (Inr (response ''error''
                  (''yt-dlp was not found at '' @ resolve_yt_dlp_path rt script_directory @ ''.'')),
            [])
      else
        (case subprocess_run rt (yt_dlp_call rt script_directory url) of
           Inl e \<Rightarrow> (Inl e, [yt_dlp_call rt script_directory url])
         | Inr completed \<Rightarrow>
             if returncode completed \<noteq> 0
             then (Inr (response ''error''
                         (py_or (py_or (strip (stderr completed)) (strip (stdout completed)))
                            ''yt-dlp failed with an unknown error.'')),
                   [yt_dlp_call rt script_directory url])
             else (Inr (response ''ok'' ''yt-dlp finished downloading the reel.''),
                   [yt_dlp_call rt script_directory url])))"
proof -
  from assms have "map_of kvs ''action'' = Some (JStr ''download'')"
    by (simp add: valid_download_def)
  then show ?thesis
    by (simp only: dispatch_download handle_valid_download [OF assms])
qed


lemma dispatch_run_raises:
  assumes "valid_download kvs url"
    and "os_path_exists rt (resolve_yt_dlp_path rt script_directory)"
    and "subprocess_run rt (yt_dlp_call rt script_directory url) = Inl e"
  shows "dispatch_message rt (JObj kvs) script_directory =
     (Inl e, [yt_dlp_call rt script_directory url])"
  using assms(2,3) by (simp add: dispatch_valid_download [OF assms(1)])

lemma dispatch_run_returns:
  assumes "valid_download kvs url"
    and "os_path_exists rt (resolve_yt_dlp_path rt script_directory)"
    and "subprocess_run rt (yt_dlp_call rt script_directory url) = Inr completed"
  shows "dispatch_message rt (JObj kvs) script_directory =
     (if returncode completed \<noteq> 0
      then (Inr (response ''error''
                  (py_or (py_or (strip (stderr completed)) (strip (stdout completed)))
                     ''yt-dlp failed with an unknown error.'')),
            [yt_dlp_call rt script_directory url])
      else (Inr (response ''ok'' ''yt-dlp finished downloading the reel.''),
            [yt_dlp_call rt script_directory url]))"
  using assms(2,3) by (simp add: dispatch_valid_download [OF assms(1)])

lemma handle_unusable_page_url:
  assumes "page_url_unusable kvs"
  shows "handle_download_request rt (JObj kvs) script_directory =
     (Inr (response ''error'' ''Missing page URL for yt-dlp.''), [])"
  using assms
  by (auto simp: page_url_unusable_def handle_download_request_def strip_empty_iff
      split: option.splits json.splits)


text \<open>
  C4. A download request whose \<^verbatim>\<open>pageUrl\<close> is absent, not a string, or blank is answered
  with the error response "Missing page URL for yt-dlp.", and no child process is run.
\<close>

theorem missing_page_url_rejected:
  assumes "map_of kvs ''action'' = Some (JStr ''download'')"
    and "page_url_unusable kvs"
  shows "dispatch_message rt (JObj kvs) script_directory =
     (Inr (response ''error'' ''Missing page URL for yt-dlp.''), [])"
  using assms by (simp add: dispatch_download handle_unusable_page_url)

theorem missing_page_url_rejected_witness:
  "map_of [(''action'', JStr ''download''), (''pageUrl'', JStr '''')] ''action''
     = Some (JStr ''download'')
   \<and> page_url_unusable [(''action'', JStr ''download''), (''pageUrl'', JStr '''')]
   \<and> dispatch_message (reference_runtime installed (child_exits 0 ''done'' ''''))
       (JObj [(''action'', JStr ''download''), (''pageUrl'', JStr '''')]) ''/opt/reeldl''
     = (Inr (JObj [(''status'', JStr ''error''),
                   (''message'', JStr ''Missing page URL for yt-dlp.'')]), [])"
proof -
  have a: "map_of [(''action'', JStr ''download''), (''pageUrl'', JStr '''')] ''action''
      = Some (JStr ''download'')"
    by simp
  have u: "page_url_unusable [(''action'', JStr ''download''), (''pageUrl'', JStr '''')]"
    by (simp add: page_url_unusable_def blank_def)
  show ?thesis
    using missing_page_url_rejected [OF a u] a u by (simp add: response_def)
qed

lemma reference_call:
  "yt_dlp_call (reference_runtime files child) ''/opt/reeldl'' url =
     \<lparr>args = [''/opt/reeldl/yt-dlp'', ''--cookies-from-browser'', ''chrome'', url],
      cwd = ''/opt/reeldl'', capture_output = True, text_mode = True\<rparr>"
  by (simp add: yt_dlp_call_def build_yt_dlp_command_def resolve_yt_dlp_path_def
      reference_runtime_def posix_join_def)

lemma reference_run_returns:
  assumes "CHR 0x00 \<notin> set url"
  shows "subprocess_run (reference_runtime files child)
           (yt_dlp_call (reference_runtime files child) ''/opt/reeldl'' url)
         = Inr (child (yt_dlp_call (reference_runtime files child) ''/opt/reeldl'' url))"
proof -
  have "subprocess_run (reference_runtime files child) = reference_run child"
    by (simp add: reference_runtime_def)
  then show ?thesis
    using assms by (simp add: reference_call reference_run_def)
qed

lemma reference_run_raises:
  assumes "CHR 0x00 \<in> set url"
  shows "subprocess_run (reference_runtime files child)
           (yt_dlp_call (reference_runtime files child) ''/opt/reeldl'' url)
         = Inl ValueError"
proof -
  have "subprocess_run (reference_runtime files child) = reference_run child"
    by (simp add: reference_runtime_def)
  then show ?thesis
    using assms by (simp add: reference_call reference_run_def)
qed

lemma reference_installed:
  "os_path_exists (reference_runtime installed child)
     (resolve_yt_dlp_path (reference_runtime installed child) ''/opt/reeldl'')"
  by (simp add: resolve_yt_dlp_path_def reference_runtime_def posix_join_def installed_def)



text \<open>
  C6, as the code has it. For a valid download request whose executable exists,
  \<^verbatim>\<open>subprocess.run\<close> is called exactly once: with the argument list of the executable
  path, \<^verbatim>\<open>--cookies-from-browser\<close>, \<^verbatim>\<open>chrome\<close> and the page URL, in the host's
  directory, with output captured as text. The handler waits for that call: when it
  returns the completed process a response is computed from it, and when it raises the
  exception escapes the handler and there is no response.
\<close>

theorem downloader_invocation:
  assumes "valid_download kvs url"
    and "os_path_exists rt (resolve_yt_dlp_path rt script_directory)"
  shows "yt_dlp_call rt script_directory url =
           \<lparr>args = [resolve_yt_dlp_path rt script_directory,
                     ''--cookies-from-browser'', ''chrome'', url],
            cwd = script_directory, capture_output = True, text_mode = True\<rparr>
     \<and> snd (dispatch_message rt (JObj kvs) script_directory) = [yt_dlp_call rt script_directory url]
     \<and> (\<forall>completed. subprocess_run rt (yt_dlp_call rt script_directory url) = Inr completed
           \<longrightarrow> (\<exists>resp. fst (dispatch_message rt (JObj kvs) script_directory) = Inr resp))
     \<and> (\<forall>e. subprocess_run rt (yt_dlp_call rt script_directory url) = Inl e
           \<longrightarrow> fst (dispatch_message rt (JObj kvs) script_directory) = Inl e)"
proof (intro conjI allI impI)
  show "yt_dlp_call rt script_directory url =
           \<lparr>args = [resolve_yt_dlp_path rt script_directory,
                     ''--cookies-from-browser'', ''chrome'', url],
            cwd = script_directory, capture_output = True, text_mode = True\<rparr>"
    by (simp add: yt_dlp_call_def build_yt_dlp_command_def)
next
  show "snd (dispatch_message rt (JObj kvs) script_directory) = [yt_dlp_call rt script_directory url]"
  proof (cases "subprocess_run rt (yt_dlp_call rt script_directory url)")
    case (Inl e)
    then show ?thesis by (simp add: dispatch_run_raises [OF assms])
  next
    case (Inr completed)
    then show ?thesis by (simp add: dispatch_run_returns [OF assms])
  qed
next
  fix completed
  assume "subprocess_run rt (yt_dlp_call rt script_directory url) = Inr completed"
  then show "\<exists>resp. fst (dispatch_message rt (JObj kvs) script_directory) = Inr resp"
    by (simp add: dispatch_run_returns [OF assms])
next
  fix e
  assume "subprocess_run rt (yt_dlp_call rt script_directory url) = Inl e"
  then show "fst (dispatch_message rt (JObj kvs) script_directory) = Inl e"
    by (simp add: dispatch_run_raises [OF assms])
qed

theorem downloader_invocation_witness:
  "valid_download [(''action'', JStr ''download''), (''pageUrl'', JStr ''https://x'')] ''https://x''
   \<and> os_path_exists (reference_runtime installed (child_exits 0 ''done'' ''''))
         (resolve_yt_dlp_path (reference_runtime installed (child_exits 0 ''done'' '''')) ''/opt/reeldl'')
   \<and> subprocess_run (reference_runtime installed (child_exits 0 ''done'' ''''))
         (yt_dlp_call (reference_runtime installed (child_exits 0 ''done'' ''''))
            ''/opt/reeldl'' ''https://x'')
       = Inr \<lparr>returncode = 0, stdout = ''done'', stderr = ''''\<rparr>
   \<and> snd (dispatch_message (reference_runtime installed (child_exits 0 ''done'' ''''))
         (JObj [(''action'', JStr ''download''), (''pageUrl'', JStr ''https://x'')]) ''/opt/reeldl'')
       = [\<lparr>args = [''/opt/reeldl/yt-dlp'', ''--cookies-from-browser'', ''chrome'', ''https://x''],
           cwd = ''/opt/reeldl'', capture_output = True, text_mode = True\<rparr>]
   \<and> (\<exists>resp. fst (dispatch_message (reference_runtime installed (child_exits 0 ''done'' ''''))
         (JObj [(''action'', JStr ''download''), (''pageUrl'', JStr ''https://x'')]) ''/opt/reeldl'')
       = Inr resp)"
proof -
  let ?rt = "reference_runtime installed (child_exits 0 ''done'' '''')"
  let ?kvs = "[(''action'', JStr ''download''), (''pageUrl'', JStr ''https://x'')]"
  have v: "valid_download ?kvs ''https://x''"
    by (simp add: valid_download_def blank_def isspace_def)
  have e: "os_path_exists ?rt (resolve_yt_dlp_path ?rt ''/opt/reeldl'')"
    by (rule reference_installed)
  have r: "subprocess_run ?rt (yt_dlp_call ?rt ''/opt/reeldl'' ''https://x'')
      = Inr \<lparr>returncode = 0, stdout = ''done'', stderr = ''''\<rparr>"
    by (simp add: reference_run_returns child_exits_def)
  note t = downloader_invocation [OF v e]
  have "snd (dispatch_message ?rt (JObj ?kvs) ''/opt/reeldl'')
      = [\<lparr>args = [''/opt/reeldl/yt-dlp'', ''--cookies-from-browser'', ''chrome'', ''https://x''],
           cwd = ''/opt/reeldl'', capture_output = True, text_mode = True\<rparr>]"
    using t by (simp add: reference_call)
  moreover have "\<exists>resp. fst (dispatch_message ?rt (JObj ?kvs) ''/opt/reeldl'') = Inr resp"
    using t r by simp
  ultimately show ?thesis using v e r by simp
qed

text \<open>
  C6 as stated fails where \<^verbatim>\<open>subprocess.run\<close> raises: a page URL with a NUL character
  is a non-blank string, the call raises \<^verbatim>\<open>ValueError\<close> before any child is started,
  and the handler returns no response.
\<close>

theorem nul_url_starts_no_child_counterexample:
  "valid_download
     [(''action'', JStr ''download''), (''pageUrl'', JStr (''https://x'' @ [CHR 0x00]))]
     (''https://x'' @ [CHR 0x00])
   \<and> os_path_exists (reference_runtime installed (child_exits 0 ''done'' ''''))
         (resolve_yt_dlp_path (reference_runtime installed (child_exits 0 ''done'' '''')) ''/opt/reeldl'')
   \<and> subprocess_run (reference_runtime installed (child_exits 0 ''done'' ''''))
         (yt_dlp_call (reference_runtime installed (child_exits 0 ''done'' ''''))
            ''/opt/reeldl'' (''https://x'' @ [CHR 0x00]))
       = Inl ValueError
   \<and> dispatch_message (reference_runtime installed (child_exits 0 ''done'' ''''))
         (JObj [(''action'', JStr ''download''), (''pageUrl'', JStr (''https://x'' @ [CHR 0x00]))])
         ''/opt/reeldl''
       = (Inl ValueError,
          [yt_dlp_call (reference_runtime installed (child_exits 0 ''done'' ''''))
             ''/opt/reeldl'' (''https://x'' @ [CHR 0x00])])"
proof -
  let ?rt = "reference_runtime installed (child_exits 0 ''done'' '''')"
  let ?url = "''https://x'' @ [CHR 0x00]"
  let ?kvs = "[(''action'', JStr ''download''), (''pageUrl'', JStr ?url)]"
  have v: "valid_download ?kvs ?url"
    by (simp add: valid_download_def blank_def isspace_def)
  have e: "os_path_exists ?rt (resolve_yt_dlp_path ?rt ''/opt/reeldl'')"
    by (rule reference_installed)
  have r: "subprocess_run ?rt (yt_dlp_call ?rt ''/opt/reeldl'' ?url) = Inl ValueError"
    by (rule reference_run_raises) simp
  have "dispatch_message ?rt (JObj ?kvs) ''/opt/reeldl''
      = (Inl ValueError, [yt_dlp_call ?rt ''/opt/reeldl'' ?url])"
    by (rule dispatch_run_raises [OF v e r])
  with v e r show ?thesis by (intro conjI)
qed



text \<open>
  C8. When the child process of a download exits with status zero, the response is
  \<^verbatim>\<open>{"status": "ok", "message": "yt-dlp finished downloading the reel."}\<close>, whatever the
  child wrote.
\<close>

theorem successful_download_reported:
  assumes "valid_download kvs url"
    and "os_path_exists rt (resolve_yt_dlp_path rt script_directory)"
    and "subprocess_run rt (yt_dlp_call rt script_directory url) = Inr completed"
    and "returncode completed = 0"
  shows "dispatch_message rt (JObj kvs) script_directory =
     (Inr (JObj [(''status'', JStr ''ok''),
                 (''message'', JStr ''yt-dlp finished downloading the reel.'')]),
      [yt_dlp_call rt script_directory url])"
  using assms(4)
  by (simp add: dispatch_run_returns [OF assms(1-3)] response_def)

theorem successful_download_reported_witness:
  "valid_download [(''action'', JStr ''download''),
                   (''pageUrl'', JStr ''https://facebook.com/reel/123'')]
     ''https://facebook.com/reel/123''
   \<and> os_path_exists (reference_runtime installed (child_exits 0 ''done'' ''''))
         (resolve_yt_dlp_path (reference_runtime installed (child_exits 0 ''done'' '''')) ''/opt/reeldl'')
   \<and> subprocess_run (reference_runtime installed (child_exits 0 ''done'' ''''))
         (yt_dlp_call (reference_runtime installed (child_exits 0 ''done'' ''''))
            ''/opt/reeldl'' ''https://facebook.com/reel/123'')
       = Inr \<lparr>returncode = 0, stdout = ''done'', stderr = ''''\<rparr>
   \<and> returncode \<lparr>returncode = 0, stdout = ''done'', stderr = ''''\<rparr> = 0
   \<and> dispatch_message (reference_runtime installed (child_exits 0 ''done'' ''''))
         (JObj [(''action'', JStr ''download''),
                (''pageUrl'', JStr ''https://facebook.com/reel/123'')]) ''/opt/reeldl''
       = (Inr (JObj [(''status'', JStr ''ok''),
                     (''message'', JStr ''yt-dlp finished downloading the reel.'')]),
          [yt_dlp_call (reference_runtime installed (child_exits 0 ''done'' ''''))
             ''/opt/reeldl'' ''https://facebook.com/reel/123''])"
proof -
  let ?rt = "reference_runtime installed (child_exits 0 ''done'' '''')"
  let ?url = "''https://facebook.com/reel/123''"
  let ?kvs = "[(''action'', JStr ''download''), (''pageUrl'', JStr ?url)]"
  let ?done = "\<lparr>returncode = 0, stdout = ''done'', stderr = ''''\<rparr>"
  have v: "valid_download ?kvs ?url"
    by (simp add: valid_download_def blank_def isspace_def)
  have e: "os_path_exists ?rt (resolve_yt_dlp_path ?rt ''/opt/reeldl'')"
    by (rule reference_installed)
  have r: "subprocess_run ?rt (yt_dlp_call ?rt ''/opt/reeldl'' ?url) = Inr ?done"
    by (simp add: reference_run_returns child_exits_def)
  have c: "returncode ?done = 0"
    by simp
  show ?thesis
    using successful_download_reported [OF v e r c] v e r by simp
qed



section \<open>Properties of the host loop\<close>

lemma dispatch_other_action:
  assumes "map_of kvs ''action'' \<noteq> Some (JStr ''download'')"
  shows "dispatch_message rt (JObj kvs) script_directory =
     (Inr (response ''error'' ''Unknown action received.''), [])"
  using assms by (auto simp: dispatch_message_def split: option.splits)

lemma dispatch_non_dict:
  "\<not> is_dict v \<Longrightarrow> dispatch_message rt v script_directory = (Inl AttributeError, [])"
  by (cases v) (simp_all add: dispatch_message_def)


lemma host_iteration:
  assumes "read_native_message rt (stdin_buf st) = (Inr v, rest)" and "v \<noteq> JNull"
  shows "run_native_host rt script_directory st =
     (case dispatch_message rt v script_directory of
        (Inl e, calls) \<Rightarrow> (Some e, st\<lparr>stdin_buf := rest, spawned := spawned st @ calls\<rparr>)
      | (Inr resp, calls) \<Rightarrow>
          (case send_native_message rt resp (stdout_buf st) of
             Inl e \<Rightarrow> (Some e, st\<lparr>stdin_buf := rest, spawned := spawned st @ calls\<rparr>)
           | Inr out \<Rightarrow>
               run_native_host rt script_directory
                 \<lparr>stdin_buf = rest, stdout_buf = out, spawned = spawned st @ calls\<rparr>))"
  by (subst run_native_host.simps) (simp add: assms)

lemma host_stops:
  assumes "read_native_message rt (stdin_buf st) = (Inr JNull, rest)"
  shows "run_native_host rt script_directory st = (None, st\<lparr>stdin_buf := rest\<rparr>)"
  by (subst run_native_host.simps) (simp add: assms)

lemma send_response:
  "send_native_message rt resp out =
     (case encoded_payload rt resp of
        Inl e \<Rightarrow> Inl e
      | Inr p \<Rightarrow> if length p < 2 ^ 32 then Inr (out @ frame p) else Inl OverflowError)"
  by (simp add: send_native_message_def encoded_payload_def to_bytes_little_def frame_def
      Let_def split: sum.splits)




lemma read_ping_frame:
  "read_native_message (reference_runtime files run)
     (frame (reference_encode ''{\"action\": \"ping\"}'') @ rest)
   = (Inr (JObj [(''action'', JStr ''ping'')]), rest)"
proof -
  let ?rt = "reference_runtime files run"
  let ?p = "reference_encode ''{\"action\": \"ping\"}''"
  have "length ?p = 18" by code_simp
  then have n: "?p \<noteq> []" and l: "length ?p < 2 ^ 32"
    by (fastforce, simp)
  have "reference_decode ?p = Inr ''{\"action\": \"ping\"}''" by code_simp
  moreover have "reference_loads ''{\"action\": \"ping\"}'' = Inr (JObj [(''action'', JStr ''ping'')])"
    by code_simp
  ultimately have "decoded_payload ?rt ?p = Inr (JObj [(''action'', JStr ''ping'')])"
    by (simp add: decoded_payload_def reference_runtime_def)
  then show ?thesis
    by (simp only: read_frame [OF n l])
qed








text \<open>
  C10, as the code has it. When the decoded payload is neither a dictionary nor
  \<^verbatim>\<open>None\<close> (an array, a string, a number, a boolean), probing its action raises
  \<^verbatim>\<open>AttributeError\<close>, which ends the loop with nothing written; and the reply
  "Unknown action received." is produced for dictionaries only.
\<close>

theorem non_dict_payload_faults:
  "(read_native_message rt (stdin_buf st) = (Inr v, rest) \<and> v \<noteq> JNull \<and> \<not> is_dict v
      \<longrightarrow> run_native_host rt script_directory st = (Some AttributeError, st\<lparr>stdin_buf := rest\<rparr>))
   \<and> (dispatch_message rt v script_directory
         = (Inr (response ''error'' ''Unknown action received.''), calls)
      \<longrightarrow> is_dict v)"
proof (intro conjI impI)
  assume h: "read_native_message rt (stdin_buf st) = (Inr v, rest) \<and> v \<noteq> JNull \<and> \<not> is_dict v"
  then have r: "read_native_message rt (stdin_buf st) = (Inr v, rest)" and n: "v \<noteq> JNull"
    and d: "dispatch_message rt v script_directory = (Inl AttributeError, [])"
    by (simp_all add: dispatch_non_dict)
  show "run_native_host rt script_directory st = (Some AttributeError, st\<lparr>stdin_buf := rest\<rparr>)"
    by (simp add: host_iteration [OF r n] d)
next
  assume "dispatch_message rt v script_directory
      = (Inr (response ''error'' ''Unknown action received.''), calls)"
  then show "is_dict v"
    using dispatch_non_dict [of v rt script_directory] by (cases "is_dict v") simp_all
qed

lemma read_array_frame:
  "read_native_message (reference_runtime files run) (frame (reference_encode ''[]'') @ rest)
   = (Inr (JArr []), rest)"
proof -
  let ?rt = "reference_runtime files run"
  let ?p = "reference_encode ''[]''"
  have "length ?p = 2" by code_simp
  then have n: "?p \<noteq> []" and l: "length ?p < 2 ^ 32"
    by (fastforce, simp)
  have "reference_decode ?p = Inr ''[]''" by code_simp
  moreover have "reference_loads ''[]'' = Inr (JArr [])"
    by code_simp
  ultimately have "decoded_payload ?rt ?p = Inr (JArr [])"
    by (simp add: decoded_payload_def reference_runtime_def)
  then show ?thesis
    by (simp only: read_frame [OF n l])
qed

theorem non_dict_payload_faults_witness:
  "read_native_message (reference_runtime installed (child_exits 0 ''done'' ''''))
     (stdin_buf \<lparr>stdin_buf = frame (reference_encode ''[]'') @ [], stdout_buf = [], spawned = []\<rparr>)
     = (Inr (JArr []), [])
   \<and> JArr [] \<noteq> JNull \<and> \<not> is_dict (JArr [])
   \<and> run_native_host (reference_runtime installed (child_exits 0 ''done'' '''')) ''/opt/reeldl''
        \<lparr>stdin_buf = frame (reference_encode ''[]'') @ [], stdout_buf = [], spawned = []\<rparr>
      = (Some AttributeError, \<lparr>stdin_buf = [], stdout_buf = [], spawned = []\<rparr>)
   \<and> dispatch_message (reference_runtime installed (child_exits 0 ''done'' ''''))
        (JObj [(''action'', JStr ''ping'')]) ''/opt/reeldl''
      = (Inr (response ''error'' ''Unknown action received.''), [])
   \<and> is_dict (JObj [(''action'', JStr ''ping'')])"
proof -
  let ?rt = "reference_runtime installed (child_exits 0 ''done'' '''')"
  let ?st = "\<lparr>stdin_buf = frame (reference_encode ''[]'') @ [], stdout_buf = [], spawned = []\<rparr>"
  have r: "read_native_message ?rt (stdin_buf ?st) = (Inr (JArr []), [])"
    by (simp only: host_state.simps read_array_frame)
  have u: "dispatch_message ?rt (JObj [(''action'', JStr ''ping'')]) ''/opt/reeldl''
      = (Inr (response ''error'' ''Unknown action received.''), [])"
    by (rule dispatch_other_action) simp
  have "run_native_host ?rt ''/opt/reeldl'' ?st = (Some AttributeError, ?st\<lparr>stdin_buf := []\<rparr>)"
    using non_dict_payload_faults [of ?rt ?st "JArr []" "[]" "''/opt/reeldl''" "[]"] r by simp
  moreover have "is_dict (JObj [(''action'', JStr ''ping'')])"
    using non_dict_payload_faults
      [of ?rt ?st "JObj [(''action'', JStr ''ping'')]" "[]" "''/opt/reeldl''" "[]"] u
    by (simp only:)
  ultimately show ?thesis using r u by simp
qed

text \<open>
  C10 as stated fails for the payload \<^verbatim>\<open>null\<close>: it is valid JSON and not an object,
  and the loop takes the decoded \<^verbatim>\<open>None\<close> for the end of the input and leaves through
  \<^verbatim>\<open>break\<close>, with no exception.
\<close>

theorem null_payload_ends_loop_counterexample:
  "decoded_payload (reference_runtime installed (child_exits 0 ''done'' ''''))
     [110, 117, 108, 108] = Inr JNull
   \<and> run_native_host (reference_runtime installed (child_exits 0 ''done'' '''')) ''/opt/reeldl''
        \<lparr>stdin_buf = [4, 0, 0, 0, 110, 117, 108, 108], stdout_buf = [], spawned = []\<rparr>
      = (None, \<lparr>stdin_buf = [], stdout_buf = [], spawned = []\<rparr>)"
proof
  let ?rt = "reference_runtime installed (child_exits 0 ''done'' '''')"
  have "reference_decode [110, 117, 108, 108] = Inr ''null''" by code_simp
  moreover have "reference_loads ''null'' = Inr JNull" by code_simp
  ultimately show "decoded_payload ?rt [110, 117, 108, 108] = Inr JNull"
    by (simp add: decoded_payload_def reference_runtime_def)
next
  let ?rt = "reference_runtime installed (child_exits 0 ''done'' '''')"
  let ?st = "\<lparr>stdin_buf = [4, 0, 0, 0, 110, 117, 108, 108], stdout_buf = [], spawned = []\<rparr>"
  have "read_native_message ?rt (stdin_buf ?st) = (Inr JNull, [])"
    by (simp only: host_state.simps read_null_frame)
  then have "run_native_host ?rt ''/opt/reeldl'' ?st = (None, ?st\<lparr>stdin_buf := []\<rparr>)"
    by (rule host_stops)
  then show "run_native_host ?rt ''/opt/reeldl'' ?st
      = (None, \<lparr>stdin_buf = [], stdout_buf = [], spawned = []\<rparr>)"
    by simp
qed

text \<open>
  Scenario 5 of the specification, run through the whole loop on the reference runtime:
  one \<^verbatim>\<open>ping\<close> request, then end of input.
\<close>

lemma scenario_unknown_action:
  "run_native_host (reference_runtime installed (child_exits 0 ''done'' '''')) ''/opt/reeldl''
     \<lparr>stdin_buf = frame (reference_encode ''{\"action\": \"ping\"}''),
      stdout_buf = [], spawned = []\<rparr>
   = (None,
      \<lparr>stdin_buf = [],
       stdout_buf = frame (reference_encode
         ''{\"status\": \"error\", \"message\": \"Unknown action received.\"}''),
       spawned = []\<rparr>)"
proof -
  let ?rt = "reference_runtime installed (child_exits 0 ''done'' '''')"
  let ?out = "reference_encode ''{\"status\": \"error\", \"message\": \"Unknown action received.\"}''"
  let ?st = "\<lparr>stdin_buf = frame (reference_encode ''{\"action\": \"ping\"}''),
              stdout_buf = [], spawned = []\<rparr>"
  let ?st' = "\<lparr>stdin_buf = [], stdout_buf = frame ?out, spawned = []\<rparr>"
  have r: "read_native_message ?rt (stdin_buf ?st) = (Inr (JObj [(''action'', JStr ''ping'')]), [])"
    using read_ping_frame [of installed "child_exits 0 ''done'' ''''" "[]"] by simp
  have n: "JObj [(''action'', JStr ''ping'')] \<noteq> JNull" by simp
  have d: "dispatch_message ?rt (JObj [(''action'', JStr ''ping'')]) ''/opt/reeldl''
      = (Inr (response ''error'' ''Unknown action received.''), [])"
    by (rule dispatch_other_action) simp
  have "dumps_value (response ''error'' ''Unknown action received.'')
      = ''{\"status\": \"error\", \"message\": \"Unknown action received.\"}''"
    by code_simp
  then have e: "encoded_payload ?rt (response ''error'' ''Unknown action received.'') = Inr ?out"
    by (simp add: encoded_payload_def reference_runtime_def reference_dumps_def)
  have "length ?out = 58" by code_simp
  then have l: "length ?out < 2 ^ 32" by simp
  have s: "send_native_message ?rt (response ''error'' ''Unknown action received.'') []
      = Inr (frame ?out)"
    using l by (simp add: send_response e)
  have "run_native_host ?rt ''/opt/reeldl'' ?st = run_native_host ?rt ''/opt/reeldl'' ?st'"
    by (simp add: host_iteration [OF r n] d s)
  also have "\<dots> = (None, ?st'\<lparr>stdin_buf := []\<rparr>)"
    by (rule host_stops) (simp add: read_exhausted)
  finally show ?thesis by simp
qed

end
